theory Spec2Isabelle
  imports Complex_Main "HOL-Library.AList"
begin

section \<open>JavaScript values\<close>

text \<open>
  The methods of \<^verbatim>\<open>Context\<close> (karma.conf.js, from line 42) are dynamically typed: every one of them
  starts with \<^verbatim>\<open>typeof\<close> and \<^verbatim>\<open>instanceof\<close> tests on its arguments. The model
  therefore passes values of a small universe of JavaScript values.

  A JavaScript number is a double. The code only asks of a number whether it is below
  zero and uses it as a key of a \<^verbatim>\<open>Map\<close> (compared by SameValueZero: NaN equals NaN,
  and -0 equals +0), so a finite number is modelled by the rational it denotes and the
  three special values are constructors of their own. HOL equality on \<open>jsnum\<close> is then
  SameValueZero.
\<close>

datatype jsnum = Finite rat | NaN | PosInfinity | NegInfinity

text \<open>The comparison \<^verbatim>\<open>n < 0\<close>: false for NaN.\<close>

fun lt_zero :: "jsnum \<Rightarrow> bool" where
  "lt_zero (Finite q) = (q < 0)"
| "lt_zero NaN = False"
| "lt_zero PosInfinity = False"
| "lt_zero NegInfinity = True"

text \<open>\<^verbatim>\<open>Number.isInteger\<close>, used to state what an integer key code is.\<close>

fun isInteger :: "jsnum \<Rightarrow> bool" where
  "isInteger (Finite q) = (of_int \<lfloor>q\<rfloor> = q)"
| "isInteger NaN = False"
| "isInteger PosInfinity = False"
| "isInteger NegInfinity = False"

text \<open>
  Modelled from the spec: the class \<^verbatim>\<open>ImageConfig\<close> (model/image_config.js) is not among
  the sources. The spec says of it: "identified by a unique integer id assigned at
  creation; holds an image identifier and nested state (image info, regions info) out
  of scope here". An instance is the pair of its id (field \<^verbatim>\<open>id\<close>, here \<open>cid\<close> since
  \<open>id\<close> is the identity function of HOL) and its image id; the id that the missing
  constructor assigns is a parameter \<open>nid\<close> of every operation that creates an instance.
\<close>

record ImageConfig =
  cid :: jsnum
  image_id :: jsnum

definition new_ImageConfig :: "jsnum \<Rightarrow> jsnum \<Rightarrow> ImageConfig" where
  "new_ImageConfig nid img = \<lparr>cid = nid, image_id = img\<rparr>"

text \<open>
  The entries of \<^verbatim>\<open>Regions.key_actions\<close> (part_000, lines 34-40): a key code, the method
  of \<^verbatim>\<open>Regions\<close> to call and its optional argument list.
\<close>

datatype regions_method = deleteShapes | saveShapes | redoHistory | undoHistory

record key_action =
  key :: jsnum
  func :: regions_method
  args :: "bool list option"

text \<open>
  Functions are compared by identity only: \<open>Fn n\<close> is some function, told from the
  others by its tag, and \<open>KeyActionHandler a\<close> is the arrow function that
  \<^verbatim>\<open>Regions.attached\<close> builds around the key action \<open>a\<close>.
\<close>

datatype jsfun = Fn nat | KeyActionHandler key_action

datatype jsval =
    VUndefined
  | VNull
  | VBool bool
  | VNum (num_of: jsnum)
  | VStr (str_of: string)
  | VFun (fun_of: jsfun)
  | VImageConfig (conf_of: ImageConfig)
  | VEventAggregator
  | VObject nat

fun typeof :: "jsval \<Rightarrow> string" where
  "typeof VUndefined = ''undefined''"
| "typeof VNull = ''object''"
| "typeof (VBool b) = ''boolean''"
| "typeof (VNum n) = ''number''"
| "typeof (VStr s) = ''string''"
| "typeof (VFun f) = ''function''"
| "typeof (VImageConfig c) = ''object''"
| "typeof VEventAggregator = ''object''"
| "typeof (VObject i) = ''object''"

fun instanceof_ImageConfig :: "jsval \<Rightarrow> bool" where
  "instanceof_ImageConfig (VImageConfig c) = True"
| "instanceof_ImageConfig v = False"

fun instanceof_EventAggregator :: "jsval \<Rightarrow> bool" where
  "instanceof_EventAggregator VEventAggregator = True"
| "instanceof_EventAggregator v = False"

text \<open>Truthiness, as \<^verbatim>\<open>if (v)\<close> and \<^verbatim>\<open>&&\<close> test it.\<close>

fun truthy :: "jsval \<Rightarrow> bool" where
  "truthy VUndefined = False"
| "truthy VNull = False"
| "truthy (VBool b) = b"
| "truthy (VNum n) = (n \<noteq> Finite 0 \<and> n \<noteq> NaN)"
| "truthy (VStr s) = (s \<noteq> [])"
| "truthy v = True"

text \<open>
  Strict equality \<^verbatim>\<open>===\<close>: values of different types are never equal, NaN is not
  equal to itself, objects and functions are equal when they are the same one.
\<close>

fun strict_equals :: "jsval \<Rightarrow> jsval \<Rightarrow> bool" where
  "strict_equals VUndefined VUndefined = True"
| "strict_equals VNull VNull = True"
| "strict_equals (VBool a) (VBool b) = (a = b)"
| "strict_equals (VNum a) (VNum b) = (a = b \<and> a \<noteq> NaN)"
| "strict_equals (VStr a) (VStr b) = (a = b)"
| "strict_equals (VFun a) (VFun b) = (a = b)"
| "strict_equals (VImageConfig a) (VImageConfig b) = (a = b)"
| "strict_equals VEventAggregator VEventAggregator = True"
| "strict_equals (VObject a) (VObject b) = (a = b)"
| "strict_equals v w = False"

section \<open>The Map of JavaScript\<close>

text \<open>
  A \<^verbatim>\<open>Map\<close> keeps its entries in insertion order, one per key: \<^verbatim>\<open>set\<close> on a key that is
  present replaces the value where it stands, on a new key it appends the entry;
  \<^verbatim>\<open>delete\<close> on a key that is absent does nothing. It is an association list with these
  operations.
\<close>

type_synonym ('k, 'v) jsmap = "('k \<times> 'v) list"

definition Map_get :: "('k, 'v) jsmap \<Rightarrow> 'k \<Rightarrow> 'v option" where
  "Map_get m k = map_of m k"

definition Map_set :: "'k \<Rightarrow> 'v \<Rightarrow> ('k, 'v) jsmap \<Rightarrow> ('k, 'v) jsmap" where
  "Map_set k v m = AList.update k v m"

definition Map_delete :: "'k \<Rightarrow> ('k, 'v) jsmap \<Rightarrow> ('k, 'v) jsmap" where
  "Map_delete k m = AList.delete k m"

definition Map_has :: "('k, 'v) jsmap \<Rightarrow> 'k \<Rightarrow> bool" where
  "Map_has m k = (k \<in> set (map fst m))"

section \<open>The state of a Context\<close>

text \<open>
  What the code does to its collaborators is recorded in the order it happens: the
  lifecycle hooks \<^verbatim>\<open>bind\<close> and \<^verbatim>\<open>unbind\<close> of an ImageConfig, the request
  \<^verbatim>\<open>image_info.requestData()\<close>, a publication of the topic IMAGE_CONFIG_SELECT with
  the payload \<^verbatim>\<open>{image_config: id}\<close> on the event bus, and, for the keydown listener, the
  call of \<^verbatim>\<open>event.preventDefault()\<close> and of a registered handler.
\<close>

datatype effect =
    Bind ImageConfig
  | Unbind ImageConfig
  | RequestData ImageConfig
  | Publish jsnum
  | PreventDefault
  | Invoke jsfun

text \<open>
  The fields of the class (karma.conf.js, lines 47-96, and \<^verbatim>\<open>initParams\<close>, line 126).
  \<open>selected_config\<close> is \<^verbatim>\<open>null\<close> (\<open>None\<close>) or a number. \<open>effects\<close> is not a field of
  the class: it is the record of the calls above, so that two equal states have also
  made the same calls.
\<close>

record Context =
  eventbus :: jsval
  server :: string
  image_configs :: "(jsnum, ImageConfig) jsmap"
  selected_config :: "jsnum option"
  useMDI :: bool
  show_regions :: bool
  show_scalebar :: bool
  key_listeners :: "(jsnum, jsfun) jsmap"
  initParams :: "(string, jsval) jsmap"
  effects :: "effect list"

datatype error = InvalidEventAggregator | TypeError

definition emit :: "effect \<Rightarrow> Context \<Rightarrow> Context" where
  "emit e ctx = ctx\<lparr>effects := effects ctx @ [e]\<rparr>"

section \<open>Key listeners (karma.conf.js, lines 141-189)\<close>

text \<open>
  \<^verbatim>\<open>addKeyListener(key, action)\<close>: returns at once unless \<open>key\<close> is a number and
  \<open>action\<close> a function; the method returns nothing in either case.
\<close>

definition addKeyListener :: "jsval \<Rightarrow> jsval \<Rightarrow> Context \<Rightarrow> Context" where
  "addKeyListener k action ctx =
     (if typeof k \<noteq> ''number'' \<or> typeof action \<noteq> ''function'' then ctx
      else ctx\<lparr>key_listeners := Map_set (num_of k) (fun_of action) (key_listeners ctx)\<rparr>)"

definition removeKeyListener :: "jsval \<Rightarrow> Context \<Rightarrow> Context" where
  "removeKeyListener k ctx =
     (if typeof k \<noteq> ''number'' then ctx
      else ctx\<lparr>key_listeners := Map_delete (num_of k) (key_listeners ctx)\<rparr>)"

text \<open>
  The keydown event, as far as the listener reads it: \<^verbatim>\<open>event.ctrlKey\<close>,
  \<^verbatim>\<open>event.target.tagName\<close> and \<^verbatim>\<open>event.keyCode\<close>.
\<close>

record KeyEvent =
  ctrlKey :: bool
  tagName :: string
  keyCode :: jsnum

text \<open>\<^verbatim>\<open>String.prototype.toUpperCase\<close> on the ASCII letters of a tag name.\<close>

definition upper_char :: "char \<Rightarrow> char" where
  "upper_char c =
     (let n = (of_char c :: nat) in if 97 \<le> n \<and> n \<le> 122 then char_of (n - 32) else c)"

definition toUpperCase :: "string \<Rightarrow> string" where
  "toUpperCase s = map upper_char s"

text \<open>
  The arrow function that \<^verbatim>\<open>establishKeyDownListener\<close> installs as
  \<^verbatim>\<open>window.onkeydown\<close> (lines 144-162), on a context \<open>ctx\<close> and an event. Its result is
  the value it returns and the calls it makes. A handler may throw: \<open>throws h\<close> says
  whether \<open>h\<close> does on this event; the exception is caught (line 161) and the function
  then ends without the \<^verbatim>\<open>return false\<close>.
\<close>

definition onkeydown :: "(jsfun \<Rightarrow> bool) \<Rightarrow> Context \<Rightarrow> KeyEvent \<Rightarrow> jsval \<times> effect list" where
  "onkeydown throws ctx event =
     (if \<not> ctrlKey event \<or> toUpperCase (tagName event) = ''INPUT'' then (VUndefined, [])
      else
        (case Map_get (key_listeners ctx) (keyCode event) of
           None \<Rightarrow> (VUndefined, [])
         | Some keyHandler \<Rightarrow>
             (if throws keyHandler then VUndefined else VBool False,
              [PreventDefault, Invoke keyHandler])))"

text \<open>
  \<^verbatim>\<open>window.onkeydown\<close> is \<^verbatim>\<open>null\<close> (\<open>None\<close>) or a function; \<open>ContextKeyDown\<close> is the
  arrow function above, \<open>OtherListener\<close> any listener that was there before.
\<close>

datatype listener = ContextKeyDown | OtherListener

record Window =
  window_onkeydown :: "listener option"

definition establishKeyDownListener :: "Window \<Rightarrow> Window" where
  "establishKeyDownListener w =
     (if window_onkeydown w = None then w\<lparr>window_onkeydown := Some ContextKeyDown\<rparr> else w)"

section \<open>ImageConfig lifecycle (karma.conf.js, lines 203-306)\<close>

text \<open>
  \<^verbatim>\<open>publish\<close> (lines 314-316) delegates to \<^verbatim>\<open>this.eventbus.publish\<close>. Of the values
  above only an EventAggregator has that method: on any other event bus the call
  throws a TypeError. The only publication the class itself makes is the one of
  \<^verbatim>\<open>selectConfig\<close>, with the selected id as its payload.
\<close>

definition publish :: "jsnum \<Rightarrow> Context \<Rightarrow> (error + jsval) \<times> Context" where
  "publish n ctx =
     (if instanceof_EventAggregator (eventbus ctx) then (Inr VUndefined, emit (Publish n) ctx)
      else (Inl TypeError, ctx))"

text \<open>
  \<^verbatim>\<open>getImageConfig(id, forceRequest=false)\<close>: the ImageConfig stored under \<open>id\<close>, or
  \<^verbatim>\<open>null\<close>. The values of the map are ImageConfig instances, so the test of line 286
  fails exactly when the key is absent.
\<close>

definition getImageConfig :: "jsval \<Rightarrow> bool \<Rightarrow> Context \<Rightarrow> jsval \<times> Context" where
  "getImageConfig i forceRequest ctx =
     (if typeof i \<noteq> ''number'' \<or> lt_zero (num_of i) then (VNull, ctx)
      else
        (case Map_get (image_configs ctx) (num_of i) of
           None \<Rightarrow> (VNull, ctx)
         | Some image_config \<Rightarrow>
             (VImageConfig image_config,
              if forceRequest then emit (RequestData image_config) ctx else ctx)))"

definition getSelectedImageConfig :: "Context \<Rightarrow> jsval \<times> Context" where
  "getSelectedImageConfig ctx =
     (case selected_config ctx of
        None \<Rightarrow> (VNull, ctx)
      | Some n \<Rightarrow> getImageConfig (VNum n) False ctx)"

text \<open>
  \<^verbatim>\<open>selectConfig(id=null)\<close>: returns \<^verbatim>\<open>null\<close> when \<open>id\<close> is no key of the map, and
  nothing (\<^verbatim>\<open>undefined\<close>) after a selection. In MDI mode the selection is published; a
  throw of \<^verbatim>\<open>publish\<close> leaves the selection made.
\<close>

definition selectConfig :: "jsval \<Rightarrow> Context \<Rightarrow> (error + jsval) \<times> Context" where
  "selectConfig i ctx =
     (if typeof i \<noteq> ''number'' \<or> lt_zero (num_of i) \<or>
         \<not> instanceof_ImageConfig
             (case Map_get (image_configs ctx) (num_of i) of
                None \<Rightarrow> VUndefined | Some c \<Rightarrow> VImageConfig c)
      then (Inr VNull, ctx)
      else
        (let ctx1 = ctx\<lparr>selected_config := Some (num_of i)\<rparr> in
         if useMDI ctx1 then publish (num_of i) ctx1 else (Inr VUndefined, ctx1)))"

text \<open>
  \<^verbatim>\<open>removeImageConfig(image_config_or_id)\<close> (lines 228-249). \<open>conf\<close> is the argument itself
  when it is an ImageConfig, the entry of the map when it is a number, and \<^verbatim>\<open>null\<close>
  otherwise. Line 242 names \<open>selId\<close> what \<^verbatim>\<open>getSelectedImageConfig()\<close> returns, which is
  an ImageConfig or \<^verbatim>\<open>null\<close>, and line 243 compares it with the number \<^verbatim>\<open>conf.id\<close>.
\<close>

definition removeImageConfig :: "jsval \<Rightarrow> Context \<Rightarrow> Context" where
  "removeImageConfig image_config_or_id ctx =
     (let conf =
        (if instanceof_ImageConfig image_config_or_id then image_config_or_id
         else if typeof image_config_or_id = ''number'' then
           (case Map_get (image_configs ctx) (num_of image_config_or_id) of
              None \<Rightarrow> VUndefined | Some c \<Rightarrow> VImageConfig c)
         else VNull)
      in
        if \<not> instanceof_ImageConfig conf then ctx
        else
          (let ctx1 = ctx\<lparr>image_configs := Map_delete (cid (conf_of conf)) (image_configs ctx)\<rparr>;
               (selId, ctx2) = getSelectedImageConfig ctx1;
               ctx3 =
                 (if truthy selId \<and> strict_equals selId (VNum (cid (conf_of conf)))
                  then ctx2\<lparr>selected_config := None\<rparr> else ctx2)
           in emit (Unbind (conf_of conf)) ctx3))"

text \<open>
  The loop of lines 209-210, \<^verbatim>\<open>for (let [id, conf] of this.image_configs)
  this.removeImageConfig(id, conf)\<close>. The iterator of a Map visits the entries in
  insertion order and skips an entry deleted before its turn; the body adds none. So
  the loop runs over the keys the map held at the start and passes over a key that is
  gone when its turn comes. \<^verbatim>\<open>removeImageConfig\<close> has one parameter: the second
  argument is dropped.
\<close>

fun removeEach :: "jsnum list \<Rightarrow> Context \<Rightarrow> Context" where
  "removeEach [] ctx = ctx"
| "removeEach (k # ks) ctx =
     removeEach ks
       (if Map_has (image_configs ctx) k then removeImageConfig (VNum k) ctx else ctx)"

text \<open>
  \<^verbatim>\<open>addImageConfig(image_id)\<close>; \<open>nid\<close> is the id that \<^verbatim>\<open>new ImageConfig(this, image_id)\<close>
  gives the new instance. A throw of \<^verbatim>\<open>selectConfig\<close> ends the method before
  \<^verbatim>\<open>image_config.bind()\<close>.
\<close>

definition addImageConfig :: "jsval \<Rightarrow> jsnum \<Rightarrow> Context \<Rightarrow> (error + jsval) \<times> Context" where
  "addImageConfig img nid ctx =
     (if typeof img \<noteq> ''number'' \<or> lt_zero (num_of img) then (Inr VNull, ctx)
      else
        (let ctx1 =
           (if \<not> useMDI ctx then removeEach (map fst (image_configs ctx)) ctx else ctx);
             image_config = new_ImageConfig nid (num_of img);
             ctx2 = ctx1\<lparr>image_configs :=
                      Map_set (cid image_config) image_config (image_configs ctx1)\<rparr>
         in
           (case selectConfig (VNum (cid image_config)) ctx2 of
              (Inl e, ctx3) \<Rightarrow> (Inl e, ctx3)
            | (Inr r, ctx3) \<Rightarrow> (Inr (VImageConfig image_config), emit (Bind image_config) ctx3))))"

section \<open>Construction (karma.conf.js, lines 104-133)\<close>

text \<open>
  \<^verbatim>\<open>String.prototype.indexOf\<close>: the first position at which \<open>pat\<close> occurs in the
  string, or -1.
\<close>

fun index_from :: "string \<Rightarrow> string \<Rightarrow> int \<Rightarrow> int" where
  "index_from [] pat i = (if pat = [] then i else - 1)"
| "index_from (c # cs) pat i =
     (if take (length pat) (c # cs) = pat then i else index_from cs pat (i + 1))"

definition indexOf :: "string \<Rightarrow> string \<Rightarrow> int" where
  "indexOf s pat = index_from s pat 0"

text \<open>
  Modelled from the spec: the constant \<^verbatim>\<open>REQUEST_PARAMS.SERVER\<close> (utils/constants.js) is
  not among the sources. The spec has the parameter names upper-cased and
  \<^verbatim>\<open>getInitialRequestParam("Server")\<close> return none after construction because "the
  server key is stripped", so the key is "SERVER".
\<close>

definition REQUEST_PARAMS_SERVER :: string where
  "REQUEST_PARAMS_SERVER = ''SERVER''"

text \<open>Reading a property of an object: \<^verbatim>\<open>undefined\<close> when it has none of that name.\<close>

definition property :: "(string, jsval) jsmap \<Rightarrow> string \<Rightarrow> jsval" where
  "property obj name = (case Map_get obj name of None \<Rightarrow> VUndefined | Some v \<Rightarrow> v)"

text \<open>Lines 110-122: the value of \<^verbatim>\<open>server\<close> after the normalisation.\<close>

definition normalize_server :: "jsval \<Rightarrow> string" where
  "normalize_server v =
     (if typeof v \<noteq> ''string'' \<or> length (str_of v) = 0 then []
      else
        (let s = str_of v;
             isLocal = (indexOf s ''localhost'' \<ge> 0 \<or> indexOf s ''127.0.0.1'' \<ge> 0);
             minLen = int (length ''http://'');
             pos = (if indexOf s ''localhost'' \<ge> minLen then indexOf s ''localhost''
                    else indexOf s ''127.0.0.1'')
         in if isLocal \<and> pos < minLen then ''http://'' @ s else s))"

text \<open>A parameter with the default value \<^verbatim>\<open>null\<close>: \<^verbatim>\<open>undefined\<close> stands for a missing argument.\<close>

definition default_null :: "jsval \<Rightarrow> jsval" where
  "default_null v = (if v = VUndefined then VNull else v)"

text \<open>
  The fields as their initialisers leave them (lines 47-96), before the body of the
  constructor runs.
\<close>

definition initial_fields :: Context where
  "initial_fields =
     \<lparr>eventbus = VNull, server = [], image_configs = [], selected_config = None,
      useMDI = False, show_regions = False, show_scalebar = False, key_listeners = [],
      initParams = [], effects = []\<rparr>"

text \<open>
  \<^verbatim>\<open>constructor(eventbus = null, initial_image_id = null, optParams = {})\<close>. The test of
  line 106 is \<^verbatim>\<open>typeof eventbus instanceof EventAggregator\<close>: \<^verbatim>\<open>typeof\<close> binds tighter
  than \<^verbatim>\<open>instanceof\<close>, so it asks whether the string that \<^verbatim>\<open>typeof\<close> yields is an
  EventAggregator. Line 130 reads \<^verbatim>\<open>.id\<close> of what \<^verbatim>\<open>addImageConfig\<close> returned, which
  throws a TypeError on \<^verbatim>\<open>null\<close>. A constructor that throws yields no object.
\<close>

definition constructor ::
  "jsval \<Rightarrow> jsval \<Rightarrow> (string, jsval) jsmap \<Rightarrow> jsnum \<Rightarrow> Window \<Rightarrow> error + (Context \<times> Window)" where
  "constructor eventbus0 initial_image_id0 optParams nid w =
     (let eventbus1 = default_null eventbus0;
          initial_image_id = default_null initial_image_id0
      in
        if instanceof_EventAggregator (VStr (typeof eventbus1)) then Inl InvalidEventAggregator
        else
          (let server1 = normalize_server (property optParams REQUEST_PARAMS_SERVER);
               ctx = initial_fields
                       \<lparr>eventbus := eventbus1, server := server1,
                        initParams := Map_delete REQUEST_PARAMS_SERVER optParams\<rparr>
           in
             (case addImageConfig initial_image_id nid ctx of
                (Inl e, ctx1) \<Rightarrow> Inl e
              | (Inr initial_image_config, ctx1) \<Rightarrow>
                  (if initial_image_config = VNull then Inl TypeError
                   else Inr (ctx1\<lparr>selected_config := Some (cid (conf_of initial_image_config))\<rparr>,
                             establishKeyDownListener w)))))"

section \<open>The Regions panel (part_000, lines 34-92)\<close>

definition key_actions :: "key_action list" where
  "key_actions =
     [\<lparr>key = Finite 68, func = deleteShapes, args = None\<rparr>,
      \<lparr>key = Finite 85, func = deleteShapes, args = Some [False, True]\<rparr>,
      \<lparr>key = Finite 83, func = saveShapes, args = None\<rparr>,
      \<lparr>key = Finite 89, func = redoHistory, args = None\<rparr>,
      \<lparr>key = Finite 90, func = undoHistory, args = None\<rparr>]"

text \<open>
  \<^verbatim>\<open>attached\<close> and \<^verbatim>\<open>detached\<close> run over \<^verbatim>\<open>key_actions\<close> in order (\<^verbatim>\<open>Array.map\<close>) and
  call the context for each action.
\<close>

definition attached :: "Context \<Rightarrow> Context" where
  "attached ctx =
     fold (\<lambda>action c. addKeyListener (VNum (key action)) (VFun (KeyActionHandler action)) c)
       key_actions ctx"

definition detached :: "Context \<Rightarrow> Context" where
  "detached ctx = fold (\<lambda>action c. removeKeyListener (VNum (key action)) c) key_actions ctx"

section \<open>States used in the statements\<close>

text \<open>
  The invariant of the data model: \<^verbatim>\<open>selected_config\<close> is unset or a key of
  \<^verbatim>\<open>image_configs\<close>.
\<close>

definition selected_config_valid :: "Context \<Rightarrow> bool" where
  "selected_config_valid ctx =
     (case selected_config ctx of None \<Rightarrow> True | Some n \<Rightarrow> Map_has (image_configs ctx) n)"

text \<open>A window on which no keydown listener is installed yet.\<close>

definition no_listener :: Window where
  "no_listener = \<lparr>window_onkeydown = None\<rparr>"

text \<open>
  The state after \<^verbatim>\<open>new Context(eventbus, 5)\<close> on an EventAggregator, when the new
  ImageConfig gets the id 1 (lemma \<open>constructor_one_image\<close> below).
\<close>

definition one_image :: Context where
  "one_image =
     initial_fields
       \<lparr>eventbus := VEventAggregator,
        image_configs := [(Finite 1, \<lparr>cid = Finite 1, image_id = Finite 5\<rparr>)],
        selected_config := Some (Finite 1),
        effects := [Bind \<lparr>cid = Finite 1, image_id = Finite 5\<rparr>]\<rparr>"

text \<open>
  The handlers a run of the keydown listener has called, read off its calls.
\<close>

definition invoked :: "effect list \<Rightarrow> jsfun list" where
  "invoked es = concat (map (\<lambda>e. case e of Invoke h \<Rightarrow> [h] | _ \<Rightarrow> []) es)"

text \<open>
  The words of the claims about arguments: an integer, a non-negative integer, a
  callable value.
\<close>

definition is_integer :: "jsval \<Rightarrow> bool" where
  "is_integer v = (typeof v = ''number'' \<and> isInteger (num_of v))"

definition is_nonneg_integer :: "jsval \<Rightarrow> bool" where
  "is_nonneg_integer v = (is_integer v \<and> \<not> lt_zero (num_of v))"

definition is_callable :: "jsval \<Rightarrow> bool" where
  "is_callable v = (typeof v = ''function'')"

text \<open>
  A Map holds one entry per key. For \<^verbatim>\<open>image_configs\<close> the code moreover stores every
  ImageConfig under its own id (line 214); both hold of the empty maps a context
  starts with and are kept by every method (lemmas \<open>configs_wf_*\<close> below).
\<close>

definition keys_distinct :: "('k, 'v) jsmap \<Rightarrow> bool" where
  "keys_distinct m = distinct (map fst m)"

definition configs_wf :: "Context \<Rightarrow> bool" where
  "configs_wf ctx =
     (keys_distinct (image_configs ctx) \<and>
      list_all (\<lambda>e. cid (snd e) = fst e) (image_configs ctx))"

text \<open>
  A sequence of calls of \<^verbatim>\<open>addImageConfig\<close>, each with its image id and the id that the
  new ImageConfig gets.
\<close>

fun addImageConfigs :: "(jsval \<times> jsnum) list \<Rightarrow> Context \<Rightarrow> Context" where
  "addImageConfigs [] ctx = ctx"
| "addImageConfigs ((img, nid) # calls) ctx =
     addImageConfigs calls (snd (addImageConfig img nid ctx))"

section \<open>Basic facts\<close>

lemmas eval_defs =
  constructor_def default_null_def normalize_server_def property_def REQUEST_PARAMS_SERVER_def
  initial_fields_def addImageConfig_def removeImageConfig_def selectConfig_def publish_def
  getSelectedImageConfig_def getImageConfig_def new_ImageConfig_def emit_def
  establishKeyDownListener_def Map_get_def Map_set_def Map_delete_def Map_has_def
  indexOf_def no_listener_def one_image_def Let_def

lemma typeof_number_iff: "typeof v = ''number'' \<longleftrightarrow> (\<exists>n. v = VNum n)"
  by (cases v) simp_all

lemma typeof_function_iff: "typeof v = ''function'' \<longleftrightarrow> (\<exists>f. v = VFun f)"
  by (cases v) simp_all

lemma instanceof_ImageConfig_iff: "instanceof_ImageConfig v \<longleftrightarrow> (\<exists>c. v = VImageConfig c)"
  by (cases v) simp_all

lemma constructor_one_image:
  "constructor VEventAggregator (VNum (Finite 5)) [] (Finite 1) no_listener =
     Inr (one_image, \<lparr>window_onkeydown = Some ContextKeyDown\<rparr>)"
  by (simp add: eval_defs)

subsection \<open>The Map operations\<close>

lemma Map_get_set: "Map_get (Map_set k v m) k' = (if k' = k then Some v else Map_get m k')"
  by (simp add: Map_get_def Map_set_def AList.update_conv')

lemma Map_get_delete: "Map_get (Map_delete k m) k' = (if k' = k then None else Map_get m k')"
  by (simp add: Map_get_def Map_delete_def AList.delete_conv')

lemma Map_get_None_iff: "Map_get m k = None \<longleftrightarrow> \<not> Map_has m k"
  by (simp add: Map_get_def Map_has_def map_of_eq_None_iff)

lemma Map_delete_absent: "Map_get m k = None \<Longrightarrow> Map_delete k m = m"
  by (simp add: Map_get_def Map_delete_def map_of_eq_None_iff)

lemma Map_get_filter_keys:
  "Map_get (filter (\<lambda>e. fst e \<notin> S) m) k = (if k \<in> S then None else Map_get m k)"
  by (induction m) (auto simp: Map_get_def)

lemma keys_distinct_set: "keys_distinct m \<Longrightarrow> keys_distinct (Map_set k v m)"
  by (simp add: keys_distinct_def Map_set_def AList.distinct_update)

lemma keys_distinct_delete: "keys_distinct m \<Longrightarrow> keys_distinct (Map_delete k m)"
  by (simp add: keys_distinct_def Map_delete_def AList.distinct_delete)

lemma entries_of_key:
  "keys_distinct m \<Longrightarrow> Map_get m k = Some v \<Longrightarrow> filter (\<lambda>e. fst e = k) m = [(k, v)]"
proof (induction m)
  case Nil
  then show ?case by (simp add: Map_get_def)
next
  case (Cons e m)
  show ?case
  proof (cases "fst e = k")
    case True
    with Cons.prems have "k \<notin> fst ` set m" "e = (k, v)"
      by (auto simp: keys_distinct_def Map_get_def)
    then have "filter (\<lambda>e. fst e = k) m = []"
      by (auto simp: filter_empty_conv)
    with \<open>e = (k, v)\<close> show ?thesis by simp
  next
    case False
    with Cons show ?thesis
      by (auto simp: keys_distinct_def Map_get_def)
  qed
qed

subsection \<open>Key listeners\<close>

lemma addKeyListener_registers:
  "key_listeners (addKeyListener (VNum k) (VFun f) ctx) = Map_set k f (key_listeners ctx)"
  by (simp add: addKeyListener_def)

lemma removeKeyListener_deletes:
  "key_listeners (removeKeyListener (VNum k) ctx) = Map_delete k (key_listeners ctx)"
  by (simp add: removeKeyListener_def)

lemma keys_distinct_addKeyListener:
  "keys_distinct (key_listeners ctx) \<Longrightarrow> keys_distinct (key_listeners (addKeyListener k h ctx))"
  by (simp add: addKeyListener_def keys_distinct_set)

lemma keys_distinct_removeKeyListener:
  "keys_distinct (key_listeners ctx) \<Longrightarrow> keys_distinct (key_listeners (removeKeyListener k ctx))"
  by (simp add: removeKeyListener_def keys_distinct_delete)

subsection \<open>What removeImageConfig does\<close>

lemma getSelectedImageConfig_state: "snd (getSelectedImageConfig ctx) = ctx"
  by (simp add: getSelectedImageConfig_def getImageConfig_def split: option.splits)

lemma getSelectedImageConfig_value:
  "fst (getSelectedImageConfig ctx) = VNull \<or>
   (\<exists>c. fst (getSelectedImageConfig ctx) = VImageConfig c)"
  by (simp add: getSelectedImageConfig_def getImageConfig_def split: option.splits)

lemma getSelectedImageConfig_cases:
  obtains "getSelectedImageConfig ctx = (VNull, ctx)"
  | c where "getSelectedImageConfig ctx = (VImageConfig c, ctx)"
proof -
  have "getSelectedImageConfig ctx = (fst (getSelectedImageConfig ctx), ctx)"
    using getSelectedImageConfig_state [of ctx] by (metis prod.collapse)
  with getSelectedImageConfig_value [of ctx] that show thesis
    by auto
qed

text \<open>
  The comparison of line 243 never succeeds: its left side is an object or \<^verbatim>\<open>null\<close>, its
  right side a number. What is left of the method once \<open>conf\<close> is an ImageConfig is the
  deletion and the call of \<^verbatim>\<open>unbind\<close>.
\<close>

lemma remove_resolved:
  assumes "instanceof_ImageConfig conf"
  shows "(let ctx1 = ctx\<lparr>image_configs := Map_delete (cid (conf_of conf)) (image_configs ctx)\<rparr>;
               (selId, ctx2) = getSelectedImageConfig ctx1;
               ctx3 =
                 (if truthy selId \<and> strict_equals selId (VNum (cid (conf_of conf)))
                  then ctx2\<lparr>selected_config := None\<rparr> else ctx2)
           in emit (Unbind (conf_of conf)) ctx3) =
         emit (Unbind (conf_of conf))
           (ctx\<lparr>image_configs := Map_delete (cid (conf_of conf)) (image_configs ctx)\<rparr>)"
  by (rule getSelectedImageConfig_cases
        [of "ctx\<lparr>image_configs := Map_delete (cid (conf_of conf)) (image_configs ctx)\<rparr>"])
     (simp_all add: Let_def)

lemma removeImageConfig_conf:
  "removeImageConfig (VImageConfig c) ctx =
     emit (Unbind c) (ctx\<lparr>image_configs := Map_delete (cid c) (image_configs ctx)\<rparr>)"
  using remove_resolved [of "VImageConfig c" ctx] by (simp add: removeImageConfig_def)

lemma removeImageConfig_num:
  "removeImageConfig (VNum n) ctx =
     (case Map_get (image_configs ctx) n of
        None \<Rightarrow> ctx
      | Some c \<Rightarrow> emit (Unbind c) (ctx\<lparr>image_configs := Map_delete (cid c) (image_configs ctx)\<rparr>))"
proof (cases "Map_get (image_configs ctx) n")
  case None
  then show ?thesis by (simp add: removeImageConfig_def)
next
  case (Some c)
  then show ?thesis
    using remove_resolved [of "VImageConfig c" ctx] by (simp add: removeImageConfig_def)
qed

lemma removeImageConfig_other:
  "\<not> instanceof_ImageConfig x \<Longrightarrow> typeof x \<noteq> ''number'' \<Longrightarrow> removeImageConfig x ctx = ctx"
  by (simp add: removeImageConfig_def)

lemma removeImageConfig_selected_config:
  "selected_config (removeImageConfig x ctx) = selected_config ctx"
proof (cases x)
  case (VNum n)
  then show ?thesis by (simp add: removeImageConfig_num emit_def split: option.splits)
next
  case (VImageConfig c)
  then show ?thesis by (simp add: removeImageConfig_conf emit_def)
qed (simp_all add: removeImageConfig_other)

subsection \<open>Fields the lifecycle methods leave alone\<close>

lemma removeImageConfig_frame:
  "server (removeImageConfig x ctx) = server ctx"
  "useMDI (removeImageConfig x ctx) = useMDI ctx"
  "eventbus (removeImageConfig x ctx) = eventbus ctx"
  "key_listeners (removeImageConfig x ctx) = key_listeners ctx"
  "initParams (removeImageConfig x ctx) = initParams ctx"
  by (cases x; simp add: removeImageConfig_num removeImageConfig_conf removeImageConfig_other
        emit_def split: option.splits)+

lemma removeEach_frame:
  "server (removeEach ks ctx) = server ctx"
  "useMDI (removeEach ks ctx) = useMDI ctx"
  "eventbus (removeEach ks ctx) = eventbus ctx"
  "key_listeners (removeEach ks ctx) = key_listeners ctx"
  "initParams (removeEach ks ctx) = initParams ctx"
  "selected_config (removeEach ks ctx) = selected_config ctx"
  by (induction ks arbitrary: ctx;
      simp add: removeImageConfig_frame removeImageConfig_selected_config)+

lemma addImageConfig_frame:
  "server (snd (addImageConfig img nid ctx)) = server ctx"
  "useMDI (snd (addImageConfig img nid ctx)) = useMDI ctx"
  "eventbus (snd (addImageConfig img nid ctx)) = eventbus ctx"
  "key_listeners (snd (addImageConfig img nid ctx)) = key_listeners ctx"
  "initParams (snd (addImageConfig img nid ctx)) = initParams ctx"
  by (simp_all add: addImageConfig_def Let_def emit_def new_ImageConfig_def selectConfig_def
        publish_def removeEach_frame Map_get_def Map_set_def AList.update_conv')

lemma constructor_server:
  assumes "constructor eb img optParams nid w = Inr (ctx, w')"
  shows "server ctx = normalize_server (property optParams REQUEST_PARAMS_SERVER)"
proof -
  define c0 where "c0 = initial_fields
                       \<lparr>eventbus := default_null eb,
                        server := normalize_server (property optParams REQUEST_PARAMS_SERVER),
                        initParams := Map_delete REQUEST_PARAMS_SERVER optParams\<rparr>"
  have "server (snd (addImageConfig (default_null img) nid c0)) =
          normalize_server (property optParams REQUEST_PARAMS_SERVER)"
    by (simp add: addImageConfig_frame c0_def)
  moreover have "server ctx = server (snd (addImageConfig (default_null img) nid c0))"
    using assms unfolding constructor_def Let_def c0_def [symmetric]
    by (auto split: if_splits prod.splits sum.splits)
  ultimately show ?thesis by simp
qed

subsection \<open>The key listeners of the Regions panel\<close>

lemma attached_listeners:
  "Map_get (key_listeners (attached ctx)) k =
     (if k = Finite 90
      then Some (KeyActionHandler \<lparr>key = Finite 90, func = undoHistory, args = None\<rparr>)
      else if k = Finite 89
      then Some (KeyActionHandler \<lparr>key = Finite 89, func = redoHistory, args = None\<rparr>)
      else if k = Finite 83
      then Some (KeyActionHandler \<lparr>key = Finite 83, func = saveShapes, args = None\<rparr>)
      else if k = Finite 85
      then Some (KeyActionHandler
                  \<lparr>key = Finite 85, func = deleteShapes, args = Some [False, True]\<rparr>)
      else if k = Finite 68
      then Some (KeyActionHandler \<lparr>key = Finite 68, func = deleteShapes, args = None\<rparr>)
      else Map_get (key_listeners ctx) k)"
  by (simp add: attached_def key_actions_def addKeyListener_registers Map_get_set)

lemma attached_keys:
  "set (map fst (key_listeners (attached ctx))) =
     set (map fst (key_listeners ctx)) \<union> set (map key key_actions)"
  by (simp add: attached_def key_actions_def addKeyListener_registers Map_set_def
      AList.dom_update insert_commute)

lemma detached_attached_listeners:
  "key_listeners (detached (attached ctx)) =
     filter (\<lambda>e. fst e \<notin> set (map key key_actions)) (key_listeners ctx)"
proof -
  have "key_listeners (detached (attached ctx)) =
          AList.delete (Finite 90) (AList.delete (Finite 89) (AList.delete (Finite 83)
            (AList.delete (Finite 85) (AList.delete (Finite 68) (key_listeners ctx)))))"
    by (simp add: detached_def attached_def key_actions_def removeKeyListener_deletes
        addKeyListener_registers Map_set_def Map_delete_def AList.delete_update_same
        AList.delete_update)
  also have "\<dots> = filter (\<lambda>e. fst e \<notin> set (map key key_actions)) (key_listeners ctx)"
    by (auto simp: AList.delete_eq key_actions_def intro!: filter_cong)
  finally show ?thesis .
qed

subsection \<open>The configs of a context\<close>

lemma removeEach_all:
  assumes "image_configs ctx = m" "distinct (map fst m)" "list_all (\<lambda>e. cid (snd e) = fst e) m"
  shows "image_configs (removeEach (map fst m) ctx) = [] \<and>
         effects (removeEach (map fst m) ctx) = effects ctx @ map (\<lambda>e. Unbind (snd e)) m"
  using assms
proof (induction m arbitrary: ctx)
  case Nil
  then show ?case by simp
next
  case (Cons e m)
  obtain k c where e: "e = (k, c)" by (cases e)
  from Cons.prems e have kc: "cid c = k" and notin: "k \<notin> fst ` set m"
    by auto
  let ?ctx' = "removeImageConfig (VNum k) ctx"
  have step: "?ctx' = emit (Unbind c) (ctx\<lparr>image_configs := m\<rparr>)"
    using Cons.prems(1) e kc notin
    by (simp add: removeImageConfig_num Map_get_def Map_delete_def)
  have has: "Map_has (image_configs ctx) k"
    using Cons.prems(1) e by (simp add: Map_has_def)
  have "image_configs ?ctx' = m"
    by (simp add: step emit_def)
  from Cons.IH [OF this] Cons.prems
  have "image_configs (removeEach (map fst m) ?ctx') = [] \<and>
        effects (removeEach (map fst m) ?ctx') = effects ?ctx' @ map (\<lambda>e. Unbind (snd e)) m"
    by simp
  moreover have "effects ?ctx' = effects ctx @ [Unbind c]"
    by (simp add: step emit_def)
  ultimately show ?case
    using has e by simp
qed

lemma removeEach_wf:
  assumes "configs_wf ctx"
  shows "image_configs (removeEach (map fst (image_configs ctx)) ctx) = []"
    and "effects (removeEach (map fst (image_configs ctx)) ctx) =
           effects ctx @ map (\<lambda>e. Unbind (snd e)) (image_configs ctx)"
  using removeEach_all [of ctx "image_configs ctx"] assms
  by (simp_all add: configs_wf_def keys_distinct_def)

lemma addImageConfig_single:
  assumes wf: "configs_wf ctx" and mdi: "\<not> useMDI ctx"
    and img: "typeof img = ''number''" "\<not> lt_zero (num_of img)"
  shows "fst (addImageConfig img nid ctx) = Inr (VImageConfig (new_ImageConfig nid (num_of img)))"
    and "image_configs (snd (addImageConfig img nid ctx)) =
           [(nid, new_ImageConfig nid (num_of img))]"
    and "effects (snd (addImageConfig img nid ctx)) =
           effects ctx @ map (\<lambda>e. Unbind (snd e)) (image_configs ctx) @
           [Bind (new_ImageConfig nid (num_of img))]"
    and "selected_config (snd (addImageConfig img nid ctx)) =
           (if lt_zero nid then selected_config ctx else Some nid)"
proof -
  let ?e = "removeEach (map fst (image_configs ctx)) ctx"
  note all = removeEach_wf [OF wf]
  have m: "useMDI ?e = useMDI ctx" "selected_config ?e = selected_config ctx"
    by (simp_all add: removeEach_frame)
  show "fst (addImageConfig img nid ctx) = Inr (VImageConfig (new_ImageConfig nid (num_of img)))"
    using mdi img all m
    by (simp add: addImageConfig_def Let_def selectConfig_def new_ImageConfig_def Map_set_def
        Map_get_def emit_def)
  show "image_configs (snd (addImageConfig img nid ctx)) =
           [(nid, new_ImageConfig nid (num_of img))]"
    using mdi img all m
    by (simp add: addImageConfig_def Let_def selectConfig_def new_ImageConfig_def Map_set_def
        Map_get_def emit_def)
  show "effects (snd (addImageConfig img nid ctx)) =
           effects ctx @ map (\<lambda>e. Unbind (snd e)) (image_configs ctx) @
           [Bind (new_ImageConfig nid (num_of img))]"
    using mdi img all m
    by (simp add: addImageConfig_def Let_def selectConfig_def new_ImageConfig_def Map_set_def
        Map_get_def emit_def)
  show "selected_config (snd (addImageConfig img nid ctx)) =
           (if lt_zero nid then selected_config ctx else Some nid)"
    using mdi img all m
    by (simp add: addImageConfig_def Let_def selectConfig_def new_ImageConfig_def Map_set_def
        Map_get_def emit_def)
qed

lemma configs_wf_initial: "configs_wf initial_fields"
  by (simp add: configs_wf_def keys_distinct_def initial_fields_def)

lemma list_all_delete: "list_all P m \<Longrightarrow> list_all P (AList.delete k m)"
  by (simp add: AList.delete_eq list_all_iff)

lemma configs_wf_delete:
  "configs_wf ctx \<Longrightarrow> configs_wf (ctx\<lparr>image_configs := Map_delete k (image_configs ctx)\<rparr>)"
  by (simp add: configs_wf_def keys_distinct_def Map_delete_def AList.distinct_delete
      list_all_delete)

lemma configs_wf_emit: "configs_wf (emit e ctx) = configs_wf ctx"
  by (simp add: configs_wf_def emit_def)

lemma configs_wf_removeImageConfig: "configs_wf ctx \<Longrightarrow> configs_wf (removeImageConfig x ctx)"
  by (cases x)
     (simp_all add: removeImageConfig_num removeImageConfig_conf removeImageConfig_other
        configs_wf_emit configs_wf_delete split: option.splits)

lemma configs_wf_removeEach: "configs_wf ctx \<Longrightarrow> configs_wf (removeEach ks ctx)"
  by (induction ks arbitrary: ctx) (simp_all add: configs_wf_removeImageConfig)

lemma configs_wf_selectConfig: "configs_wf ctx \<Longrightarrow> configs_wf (snd (selectConfig i ctx))"
  by (simp add: selectConfig_def publish_def emit_def configs_wf_def Let_def)

lemma configs_wf_getImageConfig:
  "configs_wf ctx \<Longrightarrow> configs_wf (snd (getImageConfig i force ctx))"
  by (simp add: getImageConfig_def emit_def configs_wf_def split: option.splits)

lemma list_all_update:
  "list_all P m \<Longrightarrow> P (k, v) \<Longrightarrow> list_all P (AList.update k v m)"
  by (induction m) auto

lemma configs_wf_set:
  "configs_wf ctx \<Longrightarrow> cid c = k \<Longrightarrow>
   configs_wf (ctx\<lparr>image_configs := Map_set k c (image_configs ctx)\<rparr>)"
  by (simp add: configs_wf_def keys_distinct_def Map_set_def AList.distinct_update list_all_update)

lemma configs_wf_fields:
  "image_configs ctx' = image_configs ctx \<Longrightarrow> configs_wf ctx \<Longrightarrow> configs_wf ctx'"
  by (simp add: configs_wf_def)

lemma configs_wf_addImageConfig:
  assumes "configs_wf ctx"
  shows "configs_wf (snd (addImageConfig img nid ctx))"
proof (cases "typeof img \<noteq> ''number'' \<or> lt_zero (num_of img)")
  case True
  then show ?thesis using assms by (simp add: addImageConfig_def)
next
  case False
  let ?c1 = "if \<not> useMDI ctx then removeEach (map fst (image_configs ctx)) ctx else ctx"
  let ?n = "new_ImageConfig nid (num_of img)"
  let ?c2 = "?c1\<lparr>image_configs := Map_set (cid ?n) ?n (image_configs ?c1)\<rparr>"
  have "configs_wf ?c1"
    using assms by (simp add: configs_wf_removeEach)
  then have "configs_wf ?c2"
    by (rule configs_wf_set) simp
  then have w3: "configs_wf (snd (selectConfig (VNum (cid ?n)) ?c2))"
    by (rule configs_wf_selectConfig)
  have "image_configs (snd (addImageConfig img nid ctx)) =
        image_configs (snd (selectConfig (VNum (cid ?n)) ?c2))"
    using False
    by (simp add: addImageConfig_def Let_def emit_def split: prod.splits sum.splits)
  then show ?thesis using w3 by (rule configs_wf_fields)
qed

lemma configs_wf_constructor:
  assumes "constructor eb img optParams nid w = Inr (ctx, w')"
  shows "configs_wf ctx"
proof -
  define c0 where "c0 = initial_fields
                       \<lparr>eventbus := default_null eb,
                        server := normalize_server (property optParams REQUEST_PARAMS_SERVER),
                        initParams := Map_delete REQUEST_PARAMS_SERVER optParams\<rparr>"
  have "configs_wf c0"
    by (simp add: c0_def configs_wf_def keys_distinct_def initial_fields_def)
  then have "configs_wf (snd (addImageConfig (default_null img) nid c0))"
    by (rule configs_wf_addImageConfig)
  moreover have "image_configs ctx = image_configs (snd (addImageConfig (default_null img) nid c0))"
    using assms unfolding constructor_def Let_def c0_def [symmetric]
    by (auto split: if_splits prod.splits sum.splits)
  ultimately show ?thesis by (simp add: configs_wf_def)
qed


lemma addImageConfigs_snoc:
  "addImageConfigs (calls @ [(img, nid)]) ctx =
     snd (addImageConfig img nid (addImageConfigs calls ctx))"
  by (induction calls arbitrary: ctx) auto

lemma addImageConfigs_keeps:
  "configs_wf ctx \<Longrightarrow> configs_wf (addImageConfigs calls ctx)"
  "useMDI (addImageConfigs calls ctx) = useMDI ctx"
  by (induction calls arbitrary: ctx)
     (auto simp: configs_wf_addImageConfig addImageConfig_frame)

subsection \<open>Where the selection stays valid\<close>

text \<open>
  Every method but \<^verbatim>\<open>removeImageConfig\<close> keeps \<^verbatim>\<open>selected_config\<close> unset or a key of
  the map, the constructor establishes it, and so does \<^verbatim>\<open>removeImageConfig\<close> of a
  config that is not the selected one. The new id is taken not to be below zero, as
  \<^verbatim>\<open>selectConfig\<close> would refuse one that is.
\<close>

lemma Map_has_set: "Map_has (Map_set k v m) k' \<longleftrightarrow> k' = k \<or> Map_has m k'"
  by (auto simp: Map_has_def Map_set_def AList.dom_update)

lemma Map_get_Some_has: "Map_get m k = Some v \<Longrightarrow> Map_has m k"
  using Map_get_None_iff [of m k] by simp

lemma valid_selectConfig:
  "selected_config_valid ctx \<Longrightarrow> selected_config_valid (snd (selectConfig i ctx))"
  by (auto simp: selectConfig_def publish_def emit_def selected_config_valid_def Let_def
      split: option.splits dest: Map_get_Some_has)

lemma valid_getImageConfig:
  "selected_config_valid ctx \<Longrightarrow> selected_config_valid (snd (getImageConfig i force ctx))"
  by (simp add: getImageConfig_def emit_def selected_config_valid_def split: option.splits)

lemma valid_getSelectedImageConfig:
  "selected_config_valid ctx \<Longrightarrow> selected_config_valid (snd (getSelectedImageConfig ctx))"
  by (simp add: getSelectedImageConfig_state)

lemma selectConfig_present:
  assumes "Map_has (image_configs ctx) n" "\<not> lt_zero n"
  shows "selected_config (snd (selectConfig (VNum n) ctx)) = Some n"
    and "image_configs (snd (selectConfig (VNum n) ctx)) = image_configs ctx"
  using assms
  by (auto simp: selectConfig_def publish_def emit_def Let_def Map_get_None_iff
      split: option.splits)

lemma addImageConfig_selects:
  assumes "typeof img = ''number''" "\<not> lt_zero (num_of img)" "\<not> lt_zero nid"
  shows "selected_config (snd (addImageConfig img nid ctx)) = Some nid"
    and "Map_has (image_configs (snd (addImageConfig img nid ctx))) nid"
proof -
  let ?c1 = "if \<not> useMDI ctx then removeEach (map fst (image_configs ctx)) ctx else ctx"
  let ?n = "new_ImageConfig nid (num_of img)"
  let ?c2 = "?c1\<lparr>image_configs := Map_set nid ?n (image_configs ?c1)\<rparr>"
  have has: "Map_has (image_configs ?c2) nid"
    by (simp add: Map_has_set)
  note sel = selectConfig_present [OF has assms(3)]
  have snd_eq: "selected_config (snd (addImageConfig img nid ctx)) =
                  selected_config (snd (selectConfig (VNum nid) ?c2))"
      "image_configs (snd (addImageConfig img nid ctx)) =
                  image_configs (snd (selectConfig (VNum nid) ?c2))"
    using assms(1,2)
    by (simp_all add: addImageConfig_def Let_def emit_def new_ImageConfig_def
        split: prod.splits sum.splits)
  show "selected_config (snd (addImageConfig img nid ctx)) = Some nid"
    using snd_eq sel by simp
  show "Map_has (image_configs (snd (addImageConfig img nid ctx))) nid"
    using snd_eq sel has by simp
qed

lemma valid_addImageConfig:
  assumes "selected_config_valid ctx" "\<not> lt_zero nid"
  shows "selected_config_valid (snd (addImageConfig img nid ctx))"
proof (cases "typeof img \<noteq> ''number'' \<or> lt_zero (num_of img)")
  case True
  then show ?thesis using assms by (simp add: addImageConfig_def)
next
  case False
  then show ?thesis
    using addImageConfig_selects [of img nid ctx] assms(2)
    by (simp add: selected_config_valid_def)
qed

lemma valid_constructor:
  assumes "constructor eb img optParams nid w = Inr (ctx, w')"
  shows "selected_config_valid ctx"
proof -
  define c0 where "c0 = initial_fields
                       \<lparr>eventbus := default_null eb,
                        server := normalize_server (property optParams REQUEST_PARAMS_SERVER),
                        initParams := Map_delete REQUEST_PARAMS_SERVER optParams\<rparr>"
  let ?r = "addImageConfig (default_null img) nid c0"
  have valid: "typeof (default_null img) = ''number''" "\<not> lt_zero (num_of (default_null img))"
    and ctx: "ctx = (snd ?r)\<lparr>selected_config := Some nid\<rparr>"
    using assms unfolding constructor_def Let_def c0_def [symmetric]
    by (auto simp: addImageConfig_def Let_def new_ImageConfig_def
        split: if_splits prod.splits sum.splits)
  have "Map_has (image_configs (snd ?r)) nid"
    using valid
    by (auto simp: addImageConfig_def Let_def emit_def new_ImageConfig_def selectConfig_def
        publish_def Map_has_set split: prod.splits sum.splits if_splits)
  then show ?thesis
    unfolding ctx by (simp add: selected_config_valid_def)
qed

lemma valid_removeImageConfig_other:
  assumes "selected_config_valid ctx" "Map_get (image_configs ctx) k = Some c" "cid c = k"
    "selected_config ctx \<noteq> Some k"
  shows "selected_config_valid (removeImageConfig (VNum k) ctx)"
  using assms
  by (auto simp: removeImageConfig_num emit_def selected_config_valid_def Map_has_def
      Map_delete_def AList.delete_eq split: option.splits)

section \<open>The claims\<close>

text \<open>
  C1. After \<^verbatim>\<open>removeImageConfig(id)\<close> on a key of \<^verbatim>\<open>image_configs\<close>, \<^verbatim>\<open>selected_config\<close>
  is unset if \<open>id\<close> was the selected one and unchanged otherwise. The code does not
  do the first: in the state after \<^verbatim>\<open>new Context(eventbus, 5)\<close> the config 1 is the
  selected one and a key of the map; \<^verbatim>\<open>removeImageConfig(1)\<close> empties the map and
  leaves \<^verbatim>\<open>selected_config\<close> at 1.
\<close>

theorem C1_removeImageConfig_keeps_selection:
  "constructor VEventAggregator (VNum (Finite 5)) [] (Finite 1) no_listener =
     Inr (one_image, \<lparr>window_onkeydown = Some ContextKeyDown\<rparr>) \<and>
   selected_config one_image = Some (Finite 1) \<and>
   Map_get (image_configs one_image) (Finite 1) = Some \<lparr>cid = Finite 1, image_id = Finite 5\<rparr> \<and>
   image_configs (removeImageConfig (VNum (Finite 1)) one_image) = [] \<and>
   selected_config (removeImageConfig (VNum (Finite 1)) one_image) = Some (Finite 1)"
  by (simp add: eval_defs)

text \<open>
  C2. Every operation of the context preserves the invariant that \<^verbatim>\<open>selected_config\<close> is
  unset or a key of \<^verbatim>\<open>image_configs\<close>. \<^verbatim>\<open>removeImageConfig\<close> does not: the state after
  \<^verbatim>\<open>new Context(eventbus, 5)\<close> satisfies the invariant, and the state after
  \<^verbatim>\<open>removeImageConfig(1)\<close> on it does not.
\<close>

theorem C2_removeImageConfig_breaks_invariant:
  "constructor VEventAggregator (VNum (Finite 5)) [] (Finite 1) no_listener =
     Inr (one_image, \<lparr>window_onkeydown = Some ContextKeyDown\<rparr>) \<and>
   selected_config_valid one_image \<and>
   \<not> selected_config_valid (removeImageConfig (VNum (Finite 1)) one_image)"
  by (simp add: eval_defs selected_config_valid_def)

text \<open>
  C3. The constructor throws an initialisation error when the event bus is missing or
  is no EventAggregator. The code does not: with \<^verbatim>\<open>null\<close>, with no argument and with a
  plain object for the event bus, \<^verbatim>\<open>new Context(eventbus, 5)\<close> returns a context that
  holds that event bus.
\<close>

theorem C3_constructor_accepts_any_eventbus:
  "constructor VNull (VNum (Finite 5)) [] (Finite 1) no_listener =
     Inr (one_image\<lparr>eventbus := VNull\<rparr>, \<lparr>window_onkeydown = Some ContextKeyDown\<rparr>) \<and>
   constructor VUndefined (VNum (Finite 5)) [] (Finite 1) no_listener =
     Inr (one_image\<lparr>eventbus := VNull\<rparr>, \<lparr>window_onkeydown = Some ContextKeyDown\<rparr>) \<and>
   constructor (VObject 0) (VNum (Finite 5)) [] (Finite 1) no_listener =
     Inr (one_image\<lparr>eventbus := VObject 0\<rparr>, \<lparr>window_onkeydown = Some ContextKeyDown\<rparr>)"
  by (simp add: eval_defs)

text \<open>
  C4. Construction on an EventAggregator without an initial image id completes and
  leaves \<^verbatim>\<open>image_configs\<close> empty and \<^verbatim>\<open>selected_config\<close> unset. The code does not
  complete: with \<^verbatim>\<open>null\<close> or no argument for the image id the constructor throws a
  TypeError.
\<close>

theorem C4_constructor_without_image_throws:
  "constructor VEventAggregator VNull [] (Finite 1) no_listener = Inl TypeError \<and>
   constructor VEventAggregator VUndefined [] (Finite 1) no_listener = Inl TypeError"
  by (simp add: eval_defs)

text \<open>
  C6, as the claim has it. For every id that is no key of \<^verbatim>\<open>image_configs\<close> and every
  ImageConfig reference that resolves to no entry, \<^verbatim>\<open>getImageConfig\<close>, \<^verbatim>\<open>selectConfig\<close>
  and \<^verbatim>\<open>removeImageConfig\<close> leave the state as it is and call no lifecycle hook. The
  code does not do so for a reference: no entry of the map has the id 9, yet
  \<^verbatim>\<open>removeImageConfig\<close> on an ImageConfig with that id calls its \<^verbatim>\<open>unbind\<close>.
\<close>

theorem C6_unknown_reference_is_unbound:
  "Map_get (image_configs one_image) (Finite 9) = None \<and>
   effects (removeImageConfig (VImageConfig \<lparr>cid = Finite 9, image_id = Finite 3\<rparr>) one_image) =
     effects one_image @ [Unbind \<lparr>cid = Finite 9, image_id = Finite 3\<rparr>] \<and>
   removeImageConfig (VImageConfig \<lparr>cid = Finite 9, image_id = Finite 3\<rparr>) one_image \<noteq>
     one_image"
proof -
  have e: "effects (removeImageConfig (VImageConfig \<lparr>cid = Finite 9, image_id = Finite 3\<rparr>)
             one_image) =
           effects one_image @ [Unbind \<lparr>cid = Finite 9, image_id = Finite 3\<rparr>]"
    by (simp add: removeImageConfig_conf emit_def)
  then have "removeImageConfig (VImageConfig \<lparr>cid = Finite 9, image_id = Finite 3\<rparr>) one_image \<noteq>
      one_image"
    by (metis append_self_conv not_Cons_self2)
  with e show ?thesis
    by (simp add: one_image_def initial_fields_def Map_get_def)
qed

text \<open>
  C6, amended. For every argument \<open>x\<close> that is no ImageConfig and no key of
  \<^verbatim>\<open>image_configs\<close> (a number that is not a key, or a value that is not a number),
  \<^verbatim>\<open>getImageConfig(x)\<close> and \<^verbatim>\<open>selectConfig(x)\<close> return \<^verbatim>\<open>null\<close>, \<^verbatim>\<open>removeImageConfig(x)\<close>
  returns nothing, and all three leave the whole state unchanged, the record of the
  calls made included. For an ImageConfig reference \<open>c\<close> whose id is no key,
  \<^verbatim>\<open>getImageConfig\<close> and \<^verbatim>\<open>selectConfig\<close> do the same, and \<^verbatim>\<open>removeImageConfig(c)\<close>
  changes no field of the context but calls \<^verbatim>\<open>c.unbind()\<close>.
\<close>

theorem C6_absent_id_noop:
  "(\<not> instanceof_ImageConfig x \<and>
    (typeof x = ''number'' \<longrightarrow> Map_get (image_configs ctx) (num_of x) = None) \<longrightarrow>
      getImageConfig x forceRequest ctx = (VNull, ctx) \<and>
      selectConfig x ctx = (Inr VNull, ctx) \<and>
      removeImageConfig x ctx = ctx) \<and>
   (Map_get (image_configs ctx) (cid c) = None \<longrightarrow>
      getImageConfig (VImageConfig c) forceRequest ctx = (VNull, ctx) \<and>
      selectConfig (VImageConfig c) ctx = (Inr VNull, ctx) \<and>
      removeImageConfig (VImageConfig c) ctx = emit (Unbind c) ctx)"
proof (intro conjI impI)
  assume a: "\<not> instanceof_ImageConfig x \<and>
    (typeof x = ''number'' \<longrightarrow> Map_get (image_configs ctx) (num_of x) = None)"
  show "getImageConfig x forceRequest ctx = (VNull, ctx)"
    using a by (simp add: getImageConfig_def)
  show "selectConfig x ctx = (Inr VNull, ctx)"
    using a by (simp add: selectConfig_def)
  show "removeImageConfig x ctx = ctx"
    using a by (simp add: removeImageConfig_def)
next
  assume a: "Map_get (image_configs ctx) (cid c) = None"
  show "getImageConfig (VImageConfig c) forceRequest ctx = (VNull, ctx)"
    by (simp add: getImageConfig_def)
  show "selectConfig (VImageConfig c) ctx = (Inr VNull, ctx)"
    by (simp add: selectConfig_def)
  show "removeImageConfig (VImageConfig c) ctx = emit (Unbind c) ctx"
    using a by (simp add: removeImageConfig_conf Map_delete_absent)
qed

theorem C6_absent_id_noop_witness:
  "getImageConfig (VNum (Finite 4)) True one_image = (VNull, one_image) \<and>
   selectConfig (VNum (Finite 4)) one_image = (Inr VNull, one_image) \<and>
   removeImageConfig (VNum (Finite 4)) one_image = one_image \<and>
   removeImageConfig (VImageConfig \<lparr>cid = Finite 9, image_id = Finite 3\<rparr>) one_image =
     emit (Unbind \<lparr>cid = Finite 9, image_id = Finite 3\<rparr>) one_image"
  using C6_absent_id_noop
          [of "VNum (Finite 4)" one_image True "\<lparr>cid = Finite 9, image_id = Finite 3\<rparr>"]
  by (simp add: one_image_def initial_fields_def Map_get_def)

text \<open>
  C7. The server value that the constructor stores: "localhost:4064" becomes
  "http://localhost:4064", "http://localhost:4064" and "example.org" stay as they
  are, and an empty or absent server parameter gives the empty string. Stated of
  every construction that returns a context, whatever its other arguments.
\<close>

theorem C7_server_normalization:
  assumes "constructor eb img optParams nid w = Inr (ctx, w')"
  shows "(property optParams REQUEST_PARAMS_SERVER = VStr ''localhost:4064''
            \<longrightarrow> server ctx = ''http://localhost:4064'') \<and>
         (property optParams REQUEST_PARAMS_SERVER = VStr ''http://localhost:4064''
            \<longrightarrow> server ctx = ''http://localhost:4064'') \<and>
         (property optParams REQUEST_PARAMS_SERVER = VStr ''example.org''
            \<longrightarrow> server ctx = ''example.org'') \<and>
         (property optParams REQUEST_PARAMS_SERVER = VStr [] \<longrightarrow> server ctx = []) \<and>
         (Map_get optParams REQUEST_PARAMS_SERVER = None \<longrightarrow> server ctx = [])"
  unfolding constructor_server [OF assms]
  by (simp add: normalize_server_def indexOf_def Let_def property_def)

theorem C7_server_normalization_witness:
  "constructor VEventAggregator (VNum (Finite 5)) [(''SERVER'', VStr ''localhost:4064'')]
     (Finite 1) no_listener =
     Inr (one_image\<lparr>server := ''http://localhost:4064''\<rparr>,
          \<lparr>window_onkeydown = Some ContextKeyDown\<rparr>) \<and>
   property [(''SERVER'', VStr ''localhost:4064'')] REQUEST_PARAMS_SERVER =
     VStr ''localhost:4064'' \<and>
   server (one_image\<lparr>server := ''http://localhost:4064''\<rparr>) = ''http://localhost:4064''"
proof -
  have c: "constructor VEventAggregator (VNum (Finite 5))
             [(''SERVER'', VStr ''localhost:4064'')] (Finite 1) no_listener =
           Inr (one_image\<lparr>server := ''http://localhost:4064''\<rparr>,
                \<lparr>window_onkeydown = Some ContextKeyDown\<rparr>)"
    by (simp add: eval_defs)
  have p: "property [(''SERVER'', VStr ''localhost:4064'')] REQUEST_PARAMS_SERVER =
           VStr ''localhost:4064''"
    by (simp add: property_def Map_get_def REQUEST_PARAMS_SERVER_def)
  from C7_server_normalization [OF c] p c show ?thesis
    by simp
qed

text \<open>
  C8. After \<^verbatim>\<open>addKeyListener(k, f)\<close> and then \<^verbatim>\<open>addKeyListener(k, g)\<close>, \<^verbatim>\<open>key_listeners\<close>
  maps \<open>k\<close> to \<open>g\<close> and holds that one entry for \<open>k\<close>; the map has one entry per key
  after each of the two calls if it had before; and a keydown with the control key and
  the key code \<open>k\<close> calls \<open>g\<close> and no other handler (none at all when the event comes
  from an input field, which the listener passes over).
\<close>

theorem C8_addKeyListener_replaces:
  assumes "keys_distinct (key_listeners ctx)"
  shows "Map_get (key_listeners (addKeyListener (VNum k) (VFun g)
                   (addKeyListener (VNum k) (VFun f) ctx))) k = Some g \<and>
         filter (\<lambda>e. fst e = k)
           (key_listeners (addKeyListener (VNum k) (VFun g)
              (addKeyListener (VNum k) (VFun f) ctx))) = [(k, g)] \<and>
         keys_distinct (key_listeners (addKeyListener (VNum k) (VFun f) ctx)) \<and>
         keys_distinct (key_listeners (addKeyListener (VNum k) (VFun g)
           (addKeyListener (VNum k) (VFun f) ctx))) \<and>
         (\<forall>event throws. ctrlKey event \<and> keyCode event = k \<longrightarrow>
            invoked (snd (onkeydown throws
              (addKeyListener (VNum k) (VFun g) (addKeyListener (VNum k) (VFun f) ctx)) event)) =
            (if toUpperCase (tagName event) = ''INPUT'' then [] else [g]))"
proof -
  let ?c1 = "addKeyListener (VNum k) (VFun f) ctx"
  let ?c2 = "addKeyListener (VNum k) (VFun g) ?c1"
  have d1: "keys_distinct (key_listeners ?c1)"
    using assms by (rule keys_distinct_addKeyListener)
  then have d2: "keys_distinct (key_listeners ?c2)"
    by (rule keys_distinct_addKeyListener)
  have g: "Map_get (key_listeners ?c2) k = Some g"
    by (simp add: addKeyListener_registers Map_get_set)
  have one: "filter (\<lambda>e. fst e = k) (key_listeners ?c2) = [(k, g)]"
    using d2 g by (rule entries_of_key)
  have disp: "invoked (snd (onkeydown throws ?c2 event)) =
            (if toUpperCase (tagName event) = ''INPUT'' then [] else [g])"
    if "ctrlKey event \<and> keyCode event = k" for event throws
    using that g by (simp add: onkeydown_def invoked_def)
  from d1 d2 g one disp show ?thesis by blast
qed

theorem C8_addKeyListener_replaces_witness:
  "keys_distinct (key_listeners initial_fields) \<and>
   key_listeners (addKeyListener (VNum (Finite 68)) (VFun (Fn 1))
     (addKeyListener (VNum (Finite 68)) (VFun (Fn 0)) initial_fields)) = [(Finite 68, Fn 1)] \<and>
   invoked (snd (onkeydown (\<lambda>h. False)
     (addKeyListener (VNum (Finite 68)) (VFun (Fn 1))
        (addKeyListener (VNum (Finite 68)) (VFun (Fn 0)) initial_fields))
     \<lparr>ctrlKey = True, tagName = ''div'', keyCode = Finite 68\<rparr>)) = [Fn 1]"
proof -
  have d: "keys_distinct (key_listeners initial_fields)"
    by (simp add: keys_distinct_def initial_fields_def)
  have u: "toUpperCase ''div'' \<noteq> ''INPUT''"
    by (simp add: toUpperCase_def)
  have l: "key_listeners (addKeyListener (VNum (Finite 68)) (VFun (Fn 1))
     (addKeyListener (VNum (Finite 68)) (VFun (Fn 0)) initial_fields)) = [(Finite 68, Fn 1)]"
    by (simp add: addKeyListener_def initial_fields_def Map_set_def)
  have "ctrlKey \<lparr>ctrlKey = True, tagName = ''div'', keyCode = Finite 68\<rparr> \<and>
        keyCode \<lparr>ctrlKey = True, tagName = ''div'', keyCode = Finite 68\<rparr> = Finite 68"
    by simp
  with C8_addKeyListener_replaces [OF d, of "Finite 68" "Fn 1" "Fn 0"]
  have "invoked (snd (onkeydown (\<lambda>h. False)
     (addKeyListener (VNum (Finite 68)) (VFun (Fn 1))
        (addKeyListener (VNum (Finite 68)) (VFun (Fn 0)) initial_fields))
     \<lparr>ctrlKey = True, tagName = ''div'', keyCode = Finite 68\<rparr>)) =
     (if toUpperCase (tagName \<lparr>ctrlKey = True, tagName = ''div'', keyCode = Finite 68\<rparr>) =
         ''INPUT'' then [] else [Fn 1])"
    by blast
  with u d l show ?thesis
    by simp
qed

text \<open>
  C9, as the claim has it. \<^verbatim>\<open>addKeyListener(code, handler)\<close> is a no-op when \<open>code\<close> is
  not an integer. The code does not test for an integer: 1.5 is no integer, and
  \<^verbatim>\<open>addKeyListener(1.5, handler)\<close> with a function registers it.
\<close>

theorem C9_non_integer_code_is_registered:
  "\<not> is_integer (VNum (Finite (3 / 2))) \<and> is_callable (VFun (Fn 0)) \<and>
   key_listeners initial_fields = [] \<and>
   key_listeners (addKeyListener (VNum (Finite (3 / 2))) (VFun (Fn 0)) initial_fields) =
     [(Finite (3 / 2), Fn 0)]"
proof -
  have "\<lfloor>3 / 2 :: rat\<rfloor> = 1"
    by (rule floor_unique) simp_all
  then have "\<not> isInteger (Finite (3 / 2))"
    by simp
  then show ?thesis
    by (simp add: is_integer_def is_callable_def addKeyListener_def initial_fields_def
        Map_set_def)
qed

text \<open>
  C9, amended. \<^verbatim>\<open>addKeyListener(code, handler)\<close> returns nothing and leaves the whole
  state, \<^verbatim>\<open>key_listeners\<close> included, unchanged when \<open>code\<close> is not a number or
  \<open>handler\<close> is not callable; for every number, integer or not, and every callable
  handler it stores the handler under that number.
\<close>

theorem C9_addKeyListener_guard:
  "(typeof code \<noteq> ''number'' \<or> \<not> is_callable handler
      \<longrightarrow> addKeyListener code handler ctx = ctx) \<and>
   (typeof code = ''number'' \<and> is_callable handler
      \<longrightarrow> key_listeners (addKeyListener code handler ctx) =
           Map_set (num_of code) (fun_of handler) (key_listeners ctx))"
  by (simp add: addKeyListener_def is_callable_def)

theorem C9_addKeyListener_guard_witness:
  "addKeyListener (VStr ''68'') (VFun (Fn 0)) initial_fields = initial_fields \<and>
   addKeyListener (VNum (Finite 68)) VNull initial_fields = initial_fields \<and>
   key_listeners (addKeyListener (VNum NaN) (VFun (Fn 0)) initial_fields) = [(NaN, Fn 0)]"
  using C9_addKeyListener_guard [of "VStr ''68''" "VFun (Fn 0)" initial_fields]
    C9_addKeyListener_guard [of "VNum (Finite 68)" VNull initial_fields]
    C9_addKeyListener_guard [of "VNum NaN" "VFun (Fn 0)" initial_fields]
  by (simp add: is_callable_def initial_fields_def Map_set_def)

text \<open>
  C10. \<^verbatim>\<open>Regions.attached()\<close> registers a handler of its own for each of the key codes
  68, 85, 83, 89 and 90 and for no other code, and \<^verbatim>\<open>Regions.detached()\<close> after it
  leaves \<^verbatim>\<open>key_listeners\<close> as it was before \<^verbatim>\<open>attached()\<close> less every entry for one of
  the five codes: a handler that was registered for one of them before is gone.
\<close>

theorem C10_attached_detached:
  "map key key_actions = [Finite 68, Finite 85, Finite 83, Finite 89, Finite 90] \<and>
   Map_get (key_listeners (attached ctx)) k =
     (case find (\<lambda>a. key a = k) key_actions of
        Some a \<Rightarrow> Some (KeyActionHandler a)
      | None \<Rightarrow> Map_get (key_listeners ctx) k) \<and>
   set (map fst (key_listeners (attached ctx))) =
     set (map fst (key_listeners ctx)) \<union>
     {Finite 68, Finite 85, Finite 83, Finite 89, Finite 90} \<and>
   key_listeners (detached (attached ctx)) =
     filter (\<lambda>e. fst e \<notin> {Finite 68, Finite 85, Finite 83, Finite 89, Finite 90})
       (key_listeners ctx) \<and>
   Map_get (key_listeners (detached (attached ctx))) k =
     (if k \<in> {Finite 68, Finite 85, Finite 83, Finite 89, Finite 90} then None
      else Map_get (key_listeners ctx) k)"
proof -
  have keys: "map key key_actions = [Finite 68, Finite 85, Finite 83, Finite 89, Finite 90]"
    by (simp add: key_actions_def)
  have att: "Map_get (key_listeners (attached ctx)) k =
     (case find (\<lambda>a. key a = k) key_actions of
        Some a \<Rightarrow> Some (KeyActionHandler a)
      | None \<Rightarrow> Map_get (key_listeners ctx) k)"
    unfolding attached_listeners by (simp add: key_actions_def)
  have dom: "set (map fst (key_listeners (attached ctx))) =
     set (map fst (key_listeners ctx)) \<union>
     {Finite 68, Finite 85, Finite 83, Finite 89, Finite 90}"
    unfolding attached_keys keys by auto
  have det: "key_listeners (detached (attached ctx)) =
     filter (\<lambda>e. fst e \<notin> {Finite 68, Finite 85, Finite 83, Finite 89, Finite 90})
       (key_listeners ctx)"
    unfolding detached_attached_listeners keys by simp
  have get: "Map_get (key_listeners (detached (attached ctx))) k =
     (if k \<in> {Finite 68, Finite 85, Finite 83, Finite 89, Finite 90} then None
      else Map_get (key_listeners ctx) k)"
    unfolding det by (rule Map_get_filter_keys)
  from keys att dom det get show ?thesis
    by blast
qed

theorem C10_attached_detached_witness:
  "key_listeners (addKeyListener (VNum (Finite 65)) (VFun (Fn 8))
     (addKeyListener (VNum (Finite 68)) (VFun (Fn 7)) initial_fields)) =
     [(Finite 68, Fn 7), (Finite 65, Fn 8)] \<and>
   key_listeners (detached (attached (addKeyListener (VNum (Finite 65)) (VFun (Fn 8))
     (addKeyListener (VNum (Finite 68)) (VFun (Fn 7)) initial_fields)))) = [(Finite 65, Fn 8)]"
  using C10_attached_detached
          [of "addKeyListener (VNum (Finite 65)) (VFun (Fn 8))
                 (addKeyListener (VNum (Finite 68)) (VFun (Fn 7)) initial_fields)" "Finite 68"]
  by (simp add: addKeyListener_def initial_fields_def Map_set_def)

text \<open>
  C5. While \<^verbatim>\<open>useMDI\<close> is false, after every call of \<^verbatim>\<open>addImageConfig\<close> with a
  non-negative integer image id, whatever calls came before, \<^verbatim>\<open>image_configs\<close> holds
  exactly one entry: the ImageConfig that this call created and returned. The loop of
  the call empties the map and calls \<^verbatim>\<open>unbind\<close> on every ImageConfig it held, in
  order, before the new one is stored and bound. The starting state is any state with
  one entry per key, each stored under its own id, which every state of a context is
  (lemmas \<open>configs_wf_*\<close>).
\<close>

theorem C5_addImageConfig_single_entry:
  assumes "configs_wf ctx" and "\<not> useMDI ctx" and "is_nonneg_integer img"
  shows "fst (addImageConfig img nid (addImageConfigs calls ctx)) =
           Inr (VImageConfig (new_ImageConfig nid (num_of img))) \<and>
         image_configs (addImageConfigs (calls @ [(img, nid)]) ctx) =
           [(nid, new_ImageConfig nid (num_of img))] \<and>
         image_configs (removeEach (map fst (image_configs (addImageConfigs calls ctx)))
           (addImageConfigs calls ctx)) = [] \<and>
         effects (removeEach (map fst (image_configs (addImageConfigs calls ctx)))
           (addImageConfigs calls ctx)) =
           effects (addImageConfigs calls ctx) @
           map (\<lambda>e. Unbind (snd e)) (image_configs (addImageConfigs calls ctx)) \<and>
         effects (addImageConfigs (calls @ [(img, nid)]) ctx) =
           effects (addImageConfigs calls ctx) @
           map (\<lambda>e. Unbind (snd e)) (image_configs (addImageConfigs calls ctx)) @
           [Bind (new_ImageConfig nid (num_of img))]"
proof -
  let ?before = "addImageConfigs calls ctx"
  have wf: "configs_wf ?before" and mdi: "\<not> useMDI ?before"
    using assms by (simp_all add: addImageConfigs_keeps)
  have img: "typeof img = ''number''" "\<not> lt_zero (num_of img)"
    using assms(3) by (simp_all add: is_nonneg_integer_def is_integer_def)
  note single = addImageConfig_single [OF wf mdi img, of nid]
  note emptied = removeEach_wf [OF wf]
  from single emptied show ?thesis
    by (simp add: addImageConfigs_snoc)
qed


theorem C5_addImageConfig_single_entry_witness:
  "configs_wf one_image \<and> \<not> useMDI one_image \<and> is_nonneg_integer (VNum (Finite 9)) \<and>
   image_configs
     (addImageConfigs [(VNum (Finite 7), Finite 2), (VNum (Finite 9), Finite 3)] one_image) =
     [(Finite 3, \<lparr>cid = Finite 3, image_id = Finite 9\<rparr>)] \<and>
   effects
     (addImageConfigs [(VNum (Finite 7), Finite 2), (VNum (Finite 9), Finite 3)] one_image) =
     [Bind \<lparr>cid = Finite 1, image_id = Finite 5\<rparr>,
      Unbind \<lparr>cid = Finite 1, image_id = Finite 5\<rparr>,
      Bind \<lparr>cid = Finite 2, image_id = Finite 7\<rparr>,
      Unbind \<lparr>cid = Finite 2, image_id = Finite 7\<rparr>,
      Bind \<lparr>cid = Finite 3, image_id = Finite 9\<rparr>]"
proof -
  have wf: "configs_wf one_image"
    by (simp add: configs_wf_def keys_distinct_def one_image_def initial_fields_def)
  have mdi: "\<not> useMDI one_image"
    by (simp add: one_image_def initial_fields_def)
  have img: "is_nonneg_integer (VNum (Finite 9))"
    by (simp add: is_nonneg_integer_def is_integer_def)
  have first: "addImageConfigs [(VNum (Finite 7), Finite 2)] one_image =
      one_image\<lparr>image_configs := [(Finite 2, \<lparr>cid = Finite 2, image_id = Finite 7\<rparr>)],
        selected_config := Some (Finite 2),
        effects := [Bind \<lparr>cid = Finite 1, image_id = Finite 5\<rparr>,
                    Unbind \<lparr>cid = Finite 1, image_id = Finite 5\<rparr>,
                    Bind \<lparr>cid = Finite 2, image_id = Finite 7\<rparr>]\<rparr>"
    by (simp add: eval_defs)
  from C5_addImageConfig_single_entry [OF wf mdi img, of "Finite 3" "[(VNum (Finite 7), Finite 2)]"]
  have "image_configs
          (addImageConfigs ([(VNum (Finite 7), Finite 2)] @ [(VNum (Finite 9), Finite 3)])
             one_image) =
          [(Finite 3, new_ImageConfig (Finite 3) (num_of (VNum (Finite 9))))]"
    and "effects
          (addImageConfigs ([(VNum (Finite 7), Finite 2)] @ [(VNum (Finite 9), Finite 3)])
             one_image) =
          effects (addImageConfigs [(VNum (Finite 7), Finite 2)] one_image) @
          map (\<lambda>e. Unbind (snd e))
            (image_configs (addImageConfigs [(VNum (Finite 7), Finite 2)] one_image)) @
          [Bind (new_ImageConfig (Finite 3) (num_of (VNum (Finite 9))))]"
    by blast+
  then show ?thesis
    unfolding first using wf mdi img by (simp add: new_ImageConfig_def)
qed

end
